theory Spec2Isabelle
  imports Main "HOL-Library.Word"
begin

section \<open>JavaScript values used by the plugin\<close>

text \<open>
  Strings are lists of characters; a character stands for a code unit below 256.
  Line break and tab are written out as constants, since the plugin's messages are
  built from them.
\<close>

abbreviation NL :: string where
  "NL \<equiv> [CHR 0x0A]"

abbreviation TAB :: string where
  "TAB \<equiv> [CHR 0x09]"

text \<open>
  \<^verbatim>\<open>String.prototype.trim\<close> removes white space and line terminators from both
  ends. Below 256 these are tab, line feed, vertical tab, form feed, carriage return,
  space and the no-break space.
\<close>

definition isWhiteSpace :: "char \<Rightarrow> bool" where
  "isWhiteSpace c =
     (c = CHR 0x09 \<or> c = CHR 0x0A \<or> c = CHR 0x0B \<or> c = CHR 0x0C \<or> c = CHR 0x0D
      \<or> c = CHR 0x20 \<or> c = CHR 0xA0)"

definition trim :: "string \<Rightarrow> string" where
  "trim s = rev (dropWhile isWhiteSpace (rev (dropWhile isWhiteSpace s)))"

text \<open>
  Two notions the properties below are stated with: removing white space from the end
  only, and beginning with white space.
\<close>

definition trimEnd :: "string \<Rightarrow> string" where
  "trimEnd s = rev (dropWhile isWhiteSpace (rev s))"

definition leadingWhiteSpace :: "string \<Rightarrow> bool" where
  "leadingWhiteSpace s = (case s of [] \<Rightarrow> False | c # cs \<Rightarrow> isWhiteSpace c)"

text \<open>Whether a text occurs somewhere inside another.\<close>

fun containsText :: "string \<Rightarrow> string \<Rightarrow> bool" where
  "containsText needle [] = (needle = [])"
| "containsText needle (c # cs) =
     (take (length needle) (c # cs) = needle \<or> containsText needle cs)"

text \<open>
  A report cell is a number. The type of numbers is left open (the type variable \<open>'n\<close>
  below), and the conversion of a number to a string that the template literal
  \<^verbatim>\<open>${dataValue}\<close> performs belongs to the language's engine: it is a parameter,
  \<open>toString\<close>, of the formatter.

  For evaluation at concrete inputs, sample cells are the integers of the signed 32-bit
  range. The engine renders every one of them in plain decimal, with a minus sign when
  negative.
\<close>

definition digitChar :: "nat \<Rightarrow> char" where
  "digitChar d = char_of (48 + d)"

fun natToString :: "nat \<Rightarrow> string" where
  "natToString n =
     (if n < 10 then [digitChar n] else natToString (n div 10) @ [digitChar (n mod 10)])"

declare natToString.simps [simp del]

definition int32ToString :: "32 word \<Rightarrow> string" where
  "int32ToString w =
     (if sint w < 0 then CHR ''-'' # natToString (nat (- sint w))
      else natToString (nat (sint w)))"

text \<open>
  A number reader for the sample cells: an optional minus sign followed by decimal
  digits, denoting an integer of the signed 32-bit range.
\<close>

definition isDigit :: "char \<Rightarrow> bool" where
  "isDigit c = (48 \<le> (of_char c :: nat) \<and> (of_char c :: nat) \<le> 57)"

definition digitValue :: "char \<Rightarrow> nat" where
  "digitValue c = of_char c - 48"

definition readDecimal :: "string \<Rightarrow> nat option" where
  "readDecimal s =
     (if s \<noteq> [] \<and> list_all isDigit s
      then Some (foldl (\<lambda>a c. 10 * a + digitValue c) 0 s) else None)"

definition readInteger :: "string \<Rightarrow> int option" where
  "readInteger s =
     (case s of
        [] \<Rightarrow> None
      | c # cs \<Rightarrow>
          (if c = CHR ''-'' then map_option (\<lambda>n. - int n) (readDecimal cs)
           else map_option int (readDecimal s)))"

definition readInt32 :: "string \<Rightarrow> 32 word option" where
  "readInt32 s =
     (case readInteger s of
        None \<Rightarrow> None
      | Some i \<Rightarrow> (if - (2 ^ 31) \<le> i \<and> i < 2 ^ 31 then Some (word_of_int i) else None))"

section \<open>Credential freshness: \<^verbatim>\<open>shouldAuthenticate\<close>\<close>

text \<open>
  The client library's credentials carry an optional expiry in epoch milliseconds
  (\<^verbatim>\<open>expiry_date?: number | null\<close>); \<open>None\<close> stands for both \<^verbatim>\<open>undefined\<close>
  and \<^verbatim>\<open>null\<close>. The plugin's field \<^verbatim>\<open>oauth2Client\<close> is unset until the first
  successful authorization.
\<close>

record Credentials =
  access_token :: "string option"
  expiry_date :: "int option"

record OAuth2Client =
  credentials :: Credentials

text \<open>
  \<^verbatim>\<open>new Date()\<close> reads the clock, an epoch-millisecond value passed in as \<open>clock\<close>;
  \<^verbatim>\<open>getUTCMilliseconds()\<close> is the millisecond component of that instant, between
  0 and 999.
\<close>

definition getUTCMilliseconds :: "int \<Rightarrow> int" where
  "getUTCMilliseconds t = t mod 1000"

text \<open>\<^verbatim>\<open>!x\<close> on an optional number: true for an absent value and for zero.\<close>

definition falsyNumber :: "int option \<Rightarrow> bool" where
  "falsyNumber v = (case v of None \<Rightarrow> True | Some n \<Rightarrow> n = 0)"

definition shouldAuthenticate :: "OAuth2Client option \<Rightarrow> int \<Rightarrow> bool" where
  "shouldAuthenticate client clock =
     (case client of
        None \<Rightarrow> True
      | Some c \<Rightarrow>
          (let cachedCreds = credentials c in
           if falsyNumber (expiry_date cachedCreds) then True
           else (case expiry_date cachedCreds of
                   None \<Rightarrow> True
                 | Some expiry \<Rightarrow>
                     (let timeNowMs = getUTCMilliseconds clock in timeNowMs > expiry))))"

section \<open>Option validation: \<^verbatim>\<open>validateOptions\<close>\<close>

record VideoReportOptions =
  endDate :: string
  startDate :: string
  metrics :: string
  videoId :: string

record OptionsValidationResult =
  valid :: bool
  violations :: "string option"

text \<open>
  \<^verbatim>\<open>moment(input, format).isValid()\<close> belongs to the date library, which is not part
  of the plugin: it is the parameter \<open>isValid\<close>, applied to the input and the format.
  A string is falsy exactly when it is empty. The four \<^verbatim>\<open>if\<close> statements run one
  after the other on the pair of \<^verbatim>\<open>violations\<close> and \<^verbatim>\<open>valid\<close>.
\<close>

definition falsyString :: "string \<Rightarrow> bool" where
  "falsyString s = (s = [])"

definition validateOptions ::
  "(string \<Rightarrow> string \<Rightarrow> bool) \<Rightarrow> VideoReportOptions \<Rightarrow> OptionsValidationResult" where
  "validateOptions isValid options =
     (let violations = [];
          valid = True;
          (violations, valid) =
            (if \<not> isValid (startDate options) ''YYYY-MM-DD''
             then (violations @ NL @ TAB @ ''startDate: not set correctly.'', False)
             else (violations, valid));
          (violations, valid) =
            (if \<not> isValid (endDate options) ''YYYY-MM-DD''
             then (violations @ NL @ TAB @ ''endDate: not set correctly.'', False)
             else (violations, valid));
          (violations, valid) =
            (if falsyString (metrics options)
             then (violations @ NL @ TAB @ ''metrics: not set correctly.'', False)
             else (violations, valid));
          (violations, valid) =
            (if falsyString (videoId options)
             then (violations @ NL @ TAB @ ''videoId: not set correctly.'', False)
             else (violations, valid))
      in if valid then \<lparr>valid = valid, violations = None\<rparr>
         else \<lparr>valid = valid, violations = Some (trim violations)\<rparr>)"

text \<open>
  A date check for evaluating the validator at concrete inputs: it accepts the two
  sample dates used below, both calendar dates in the expected format, and nothing else.
\<close>

definition sampleIsValid :: "string \<Rightarrow> string \<Rightarrow> bool" where
  "sampleIsValid input format =
     ((input = ''2024-01-01'' \<or> input = ''2024-01-31'') \<and> format = ''YYYY-MM-DD'')"

text \<open>
  The fields that fail their check, in the order of the checks, and the line the
  validator adds for a field.
\<close>

definition failedFields ::
  "(string \<Rightarrow> string \<Rightarrow> bool) \<Rightarrow> VideoReportOptions \<Rightarrow> string list" where
  "failedFields isValid options =
     (if isValid (startDate options) ''YYYY-MM-DD'' then [] else [''startDate''])
     @ (if isValid (endDate options) ''YYYY-MM-DD'' then [] else [''endDate''])
     @ (if metrics options = [] then [''metrics''] else [])
     @ (if videoId options = [] then [''videoId''] else [])"

definition violationLine :: "string \<Rightarrow> string" where
  "violationLine field = NL @ TAB @ field @ '': not set correctly.''"

section \<open>Report formatting: \<^verbatim>\<open>formatReport\<close>\<close>

record AnalyticsReportColumn =
  name :: string
  columnType :: string
  dataType :: string

record 'n AnalyticsReport =
  columnHeaders :: "AnalyticsReportColumn list"
  rows :: "'n list list"

text \<open>
  Reading \<^verbatim>\<open>data.columnHeaders[j]\<close> past the end of the array gives
  \<^verbatim>\<open>undefined\<close>, and reading \<^verbatim>\<open>.name\<close> of \<^verbatim>\<open>undefined\<close> throws a
  \<^verbatim>\<open>TypeError\<close>. A rejected promise carries the text of its reason.
\<close>

datatype js_error = TypeError | Rejected string

text \<open>The inner loop, over the cells \<open>j\<close> of one row, appending to \<^verbatim>\<open>frontMattered\<close>.\<close>

function cellLoop ::
  "('n \<Rightarrow> string) \<Rightarrow> AnalyticsReportColumn list \<Rightarrow> 'n list \<Rightarrow> nat \<Rightarrow> string
     \<Rightarrow> js_error + string" where
  "cellLoop toString headers row j frontMattered =
     (if j < length row then
        (if j < length headers then
           (let columnName = name (headers ! j);
                dataValue = row ! j
            in cellLoop toString headers row (Suc j)
                 (frontMattered @ columnName @ '':: '' @ toString dataValue @ NL))
         else Inl TypeError)
      else Inr frontMattered)"
  by pat_completeness auto
termination
  by (relation "measure (\<lambda>(toString, headers, row, j, frontMattered). length row - j)") auto

declare cellLoop.simps [simp del]

text \<open>The outer loop, over the rows \<open>i\<close> of the report.\<close>

function rowLoop ::
  "('n \<Rightarrow> string) \<Rightarrow> 'n AnalyticsReport \<Rightarrow> nat \<Rightarrow> string \<Rightarrow> js_error + string" where
  "rowLoop toString data i frontMattered =
     (if i < length (rows data) then
        (let row = rows data ! i in
         case cellLoop toString (columnHeaders data) row 0 frontMattered of
           Inl e \<Rightarrow> Inl e
         | Inr frontMattered' \<Rightarrow> rowLoop toString data (Suc i) frontMattered')
      else Inr frontMattered)"
  by pat_completeness auto
termination
  by (relation "measure (\<lambda>(toString, data, i, frontMattered). length (rows data) - i)") auto

declare rowLoop.simps [simp del]

definition formatReport :: "('n \<Rightarrow> string) \<Rightarrow> 'n AnalyticsReport \<Rightarrow> js_error + string" where
  "formatReport toString data =
     (case rowLoop toString data 0 [] of
        Inl e \<Rightarrow> Inl e
      | Inr frontMattered \<Rightarrow> Inr (trim frontMattered))"

text \<open>
  The text the formatter is to produce before trimming: for every row, for every cell,
  the column name at the cell's position, the separator, the value and a line break.
\<close>

definition cellLine :: "('n \<Rightarrow> string) \<Rightarrow> AnalyticsReportColumn \<Rightarrow> 'n \<Rightarrow> string" where
  "cellLine toString header v = name header @ '':: '' @ toString v @ NL"

definition rowBlock ::
  "('n \<Rightarrow> string) \<Rightarrow> AnalyticsReportColumn list \<Rightarrow> 'n list \<Rightarrow> string" where
  "rowBlock toString headers row = concat (map2 (cellLine toString) headers row)"

definition reportBlock :: "('n \<Rightarrow> string) \<Rightarrow> 'n AnalyticsReport \<Rightarrow> string" where
  "reportBlock toString data =
     concat (map (rowBlock toString (columnHeaders data)) (rows data))"

text \<open>
  The same text seen as a list of lines without their line breaks, the cells behind
  them, and the name of the first column (empty when there is no column).
\<close>

definition lineBody :: "('n \<Rightarrow> string) \<Rightarrow> AnalyticsReportColumn \<Rightarrow> 'n \<Rightarrow> string" where
  "lineBody toString header v = name header @ '':: '' @ toString v"

definition reportLines :: "('n \<Rightarrow> string) \<Rightarrow> 'n AnalyticsReport \<Rightarrow> string list" where
  "reportLines toString data =
     concat (map (\<lambda>row. map2 (lineBody toString) (columnHeaders data) row) (rows data))"

definition reportCells :: "'n AnalyticsReport \<Rightarrow> (AnalyticsReportColumn \<times> 'n) list" where
  "reportCells data = concat (map (zip (columnHeaders data)) (rows data))"

definition firstColumnName :: "'n AnalyticsReport \<Rightarrow> string" where
  "firstColumnName data = (case columnHeaders data of [] \<Rightarrow> [] | h # hs \<Rightarrow> name h)"

text \<open>Sample reports for evaluation at concrete inputs.\<close>

definition sampleReport :: "32 word AnalyticsReport" where
  "sampleReport =
     \<lparr>columnHeaders =
        [\<lparr>name = ''views'', columnType = ''METRIC'', dataType = ''INTEGER''\<rparr>,
         \<lparr>name = ''likes'', columnType = ''METRIC'', dataType = ''INTEGER''\<rparr>],
      rows = [[10, 2], [20, 4]]\<rparr>"

definition plainReport :: "32 word AnalyticsReport" where
  "plainReport =
     \<lparr>columnHeaders = [\<lparr>name = ''views'', columnType = ''METRIC'', dataType = ''INTEGER''\<rparr>],
      rows = [[10]]\<rparr>"

definition paddedReport :: "32 word AnalyticsReport" where
  "paddedReport =
     \<lparr>columnHeaders = [\<lparr>name = '' views'', columnType = ''METRIC'', dataType = ''INTEGER''\<rparr>],
      rows = [[10]]\<rparr>"

definition longRowReport :: "32 word AnalyticsReport" where
  "longRowReport =
     \<lparr>columnHeaders = [\<lparr>name = ''views'', columnType = ''METRIC'', dataType = ''INTEGER''\<rparr>],
      rows = [[10, 2]]\<rparr>"

definition staggeredReport :: "32 word AnalyticsReport" where
  "staggeredReport =
     \<lparr>columnHeaders = [\<lparr>name = ''views'', columnType = ''METRIC'', dataType = ''INTEGER''\<rparr>],
      rows = [[10], [20, 4]]\<rparr>"

section \<open>The report run: \<^verbatim>\<open>runVideoReport\<close>, \<^verbatim>\<open>fetchReportDetails\<close> and the form callback\<close>

record GlitchedVideoPluginSettings =
  mySetting :: string
  oauth2KeysLocation :: string

record GlitchedVideoPlugin =
  settings :: GlitchedVideoPluginSettings
  oauth2Client :: "OAuth2Client option"
  previousReportOptions :: VideoReportOptions

record AuthRequest =
  scopes :: "string list"
  keyfilePath :: string

record QueryRequest =
  queryEndDate :: string
  queryStartDate :: string
  queryMetrics :: string
  ids :: string
  filters :: string

text \<open>
  What the plugin calls is a parameter: the authorization call and the report query each
  settle once, with a rejection or a value, the date check is the one of the validator,
  and the conversion of a number to a string is the one of the formatter. The
  response's data is taken to have the report's shape, as the cast in the source does.
\<close>

record 'n Collaborators =
  authenticate :: "AuthRequest \<Rightarrow> js_error + OAuth2Client"
  reportsQuery :: "QueryRequest \<Rightarrow> js_error + 'n AnalyticsReport"
  momentIsValid :: "string \<Rightarrow> string \<Rightarrow> bool"
  numberToString :: "'n \<Rightarrow> string"

text \<open>
  What a run does to the outside, in order: the calls to the collaborators, the text
  inserted at the editor's cursor, the modals opened (with the text they show), and a
  rejection that no handler receives. Console output is left out.
\<close>

datatype effect =
    Authenticate AuthRequest
  | GoogleOptions OAuth2Client
  | ReportsQuery QueryRequest
  | ReplaceRange string
  | ModalOpen string
  | UnhandledRejection js_error

text \<open>String conversion of an error in \<^verbatim>\<open>"Retrieval failed: " + error\<close>.\<close>

definition errorToString :: "js_error \<Rightarrow> string" where
  "errorToString e =
     (case e of
        TypeError \<Rightarrow> ''TypeError: Cannot read properties of undefined (reading 'name')''
      | Rejected reason \<Rightarrow> reason)"

text \<open>\<^verbatim>\<open>ErrorModal.onOpen\<close> shows \<^verbatim>\<open>`ERROR:\n ${this.errorMessage}`\<close>.\<close>

definition ErrorModal :: "string \<Rightarrow> effect" where
  "ErrorModal errorMessage = ModalOpen (''ERROR:'' @ NL @ '' '' @ errorMessage)"

definition queryRequest :: "VideoReportOptions \<Rightarrow> QueryRequest" where
  "queryRequest options =
     \<lparr>queryEndDate = endDate options,
      queryStartDate = startDate options,
      queryMetrics = metrics options,
      ids = ''channel==MINE'',
      filters = ''video=='' @ videoId options\<rparr>"

definition fetchReportDetails :: "'n Collaborators \<Rightarrow> VideoReportOptions \<Rightarrow> effect list" where
  "fetchReportDetails env options =
     (let request = queryRequest options
      in ReportsQuery request #
         (case reportsQuery env request of
            Inl error \<Rightarrow> [ErrorModal (''Retrieval failed: '' @ errorToString error)]
          | Inr metricsData \<Rightarrow>
              (case formatReport (numberToString env) metricsData of
                 Inl error \<Rightarrow> [ErrorModal (''Retrieval failed: '' @ errorToString error)]
               | Inr text \<Rightarrow> [ReplaceRange text])))"

definition authRequest :: "GlitchedVideoPlugin \<Rightarrow> AuthRequest" where
  "authRequest plugin =
     \<lparr>scopes = [''https://www.googleapis.com/auth/yt-analytics.readonly'',
                ''https://www.googleapis.com/auth/yt-analytics-monetary.readonly''],
      keyfilePath = oauth2KeysLocation (settings plugin)\<rparr>"

definition runVideoReport ::
  "'n Collaborators \<Rightarrow> int \<Rightarrow> GlitchedVideoPlugin \<Rightarrow> VideoReportOptions
     \<Rightarrow> GlitchedVideoPlugin \<times> effect list" where
  "runVideoReport env clock plugin options =
     (if shouldAuthenticate (oauth2Client plugin) clock then
        (let request = authRequest plugin
         in case authenticate env request of
              Inl error \<Rightarrow> (plugin, [Authenticate request, UnhandledRejection error])
            | Inr client \<Rightarrow>
                (plugin\<lparr>oauth2Client := Some client\<rparr>,
                 [Authenticate request, GoogleOptions client] @ fetchReportDetails env options))
      else (plugin, fetchReportDetails env options))"

text \<open>
  The callback the options form runs on submission (in \<^verbatim>\<open>onload\<close>). Concatenating
  an absent \<^verbatim>\<open>violations\<close> would give the text \<^verbatim>\<open>undefined\<close>.
\<close>

definition onSubmit ::
  "'n Collaborators \<Rightarrow> int \<Rightarrow> GlitchedVideoPlugin \<Rightarrow> VideoReportOptions
     \<Rightarrow> GlitchedVideoPlugin \<times> effect list" where
  "onSubmit env clock plugin result =
     (let validate = validateOptions (momentIsValid env) result;
          plugin = plugin\<lparr>previousReportOptions := result\<rparr>
      in if \<not> valid validate then
           (plugin,
            [ErrorModal (''Options set incorrectly:'' @ NL
               @ (case violations validate of None \<Rightarrow> ''undefined'' | Some v \<Rightarrow> v))])
         else runVideoReport env clock plugin (previousReportOptions plugin))"

text \<open>Reading a run's effects: the modals shown, the texts inserted, the calls made.\<close>

fun modalsOpened :: "effect list \<Rightarrow> string list" where
  "modalsOpened [] = []"
| "modalsOpened (ModalOpen t # es) = t # modalsOpened es"
| "modalsOpened (e # es) = modalsOpened es"

fun textsInserted :: "effect list \<Rightarrow> string list" where
  "textsInserted [] = []"
| "textsInserted (ReplaceRange t # es) = t # textsInserted es"
| "textsInserted (e # es) = textsInserted es"

fun queriesIssued :: "effect list \<Rightarrow> QueryRequest list" where
  "queriesIssued [] = []"
| "queriesIssued (ReportsQuery q # es) = q # queriesIssued es"
| "queriesIssued (e # es) = queriesIssued es"

fun authorizationsRequested :: "effect list \<Rightarrow> AuthRequest list" where
  "authorizationsRequested [] = []"
| "authorizationsRequested (Authenticate a # es) = a # authorizationsRequested es"
| "authorizationsRequested (e # es) = authorizationsRequested es"

text \<open>Sample collaborators, plugin state and options for evaluation at concrete inputs.\<close>

definition sampleClient :: OAuth2Client where
  "sampleClient =
     \<lparr>credentials = \<lparr>access_token = Some ''token'', expiry_date = Some 1700003600000\<rparr>\<rparr>"

definition rejectingAuth :: "32 word Collaborators" where
  "rejectingAuth =
     \<lparr>authenticate = (\<lambda>request. Inl (Rejected ''Error: invalid_grant'')),
      reportsQuery = (\<lambda>request. Inr sampleReport),
      momentIsValid = sampleIsValid,
      numberToString = int32ToString\<rparr>"

definition rejectingQuery :: "32 word Collaborators" where
  "rejectingQuery =
     \<lparr>authenticate = (\<lambda>request. Inr sampleClient),
      reportsQuery = (\<lambda>request. Inl (Rejected ''Error: quota exceeded'')),
      momentIsValid = sampleIsValid,
      numberToString = int32ToString\<rparr>"

definition answering :: "32 word Collaborators" where
  "answering =
     \<lparr>authenticate = (\<lambda>request. Inr sampleClient),
      reportsQuery = (\<lambda>request. Inr sampleReport),
      momentIsValid = sampleIsValid,
      numberToString = int32ToString\<rparr>"

definition freshPlugin :: GlitchedVideoPlugin where
  "freshPlugin =
     \<lparr>settings = \<lparr>mySetting = ''default'', oauth2KeysLocation = ''/home/me/keys.json''\<rparr>,
      oauth2Client = None,
      previousReportOptions =
        \<lparr>endDate = ''2024-01-31'', startDate = ''2024-01-31'',
         metrics = ''views,comments,likes'', videoId = []\<rparr>\<rparr>"

definition sampleOptions :: VideoReportOptions where
  "sampleOptions =
     \<lparr>endDate = ''2024-01-31'', startDate = ''2024-01-01'',
      metrics = ''views,likes'', videoId = ''abc123''\<rparr>"

definition emptyMetricsOptions :: VideoReportOptions where
  "emptyMetricsOptions =
     \<lparr>endDate = ''2024-01-31'', startDate = ''2024-01-01'', metrics = [], videoId = ''abc123''\<rparr>"

definition blankMetricsOptions :: VideoReportOptions where
  "blankMetricsOptions =
     \<lparr>endDate = ''2024-01-31'', startDate = ''2024-01-01'', metrics = ''  '',
      videoId = ''abc123''\<rparr>"

definition staleClient :: OAuth2Client where
  "staleClient =
     \<lparr>credentials = \<lparr>access_token = Some ''token'', expiry_date = Some 1700000000000\<rparr>\<rparr>"

section \<open>A line parser for the formatter's output\<close>

text \<open>
  The round-trip property reads the formatter's output back with a parser of lines
  \<^verbatim>\<open>name:: value\<close>. The plugin has no such parser; this one follows the
  specification's words: the text is split at line breaks, each line at the first
  separator, and the value is read by a number reader, \<open>readNumber\<close>, that the parser is
  given. The empty text has no lines.
\<close>

fun specSplitLines :: "string \<Rightarrow> string list" where
  "specSplitLines [] = [[]]"
| "specSplitLines (c # cs) =
     (if c = CHR 0x0A then [] # specSplitLines cs
      else (let r = specSplitLines cs in (c # hd r) # tl r))"

fun specSplitSeparator :: "string \<Rightarrow> (string \<times> string) option" where
  "specSplitSeparator [] = None"
| "specSplitSeparator (c # cs) =
     (if take 3 (c # cs) = '':: '' then Some ([], drop 3 (c # cs))
      else map_option (\<lambda>(n, v). (c # n, v)) (specSplitSeparator cs))"

definition specParseLine :: "(string \<Rightarrow> 'n option) \<Rightarrow> string \<Rightarrow> (string \<times> 'n) option" where
  "specParseLine readNumber l =
     (case specSplitSeparator l of
        None \<Rightarrow> None
      | Some (n, v) \<Rightarrow> map_option (\<lambda>x. (n, x)) (readNumber v))"

definition specParseReport ::
  "(string \<Rightarrow> 'n option) \<Rightarrow> string \<Rightarrow> (string \<times> 'n) list option" where
  "specParseReport readNumber text =
     (if text = [] then Some []
      else those (map (specParseLine readNumber) (specSplitLines text)))"

text \<open>The pairs of column name and cell value of a report, row by row.\<close>

definition cellPairs :: "'n AnalyticsReport \<Rightarrow> (string \<times> 'n) list" where
  "cellPairs data =
     concat (map (\<lambda>row. zip (map name (columnHeaders data)) row) (rows data))"

text \<open>Whether a string contains the separator, and whether it contains a line break.\<close>

definition hasSeparator :: "string \<Rightarrow> bool" where
  "hasSeparator s = containsText '':: '' s"

definition hasLineBreak :: "string \<Rightarrow> bool" where
  "hasLineBreak s = (CHR 0x0A \<in> set s)"

text \<open>
  What the round trip needs of a cell's rendering: the text is not empty, holds no line
  break and does not end in white space.
\<close>

definition rendersCleanly :: "('n \<Rightarrow> string) \<Rightarrow> 'n \<Rightarrow> bool" where
  "rendersCleanly toString v =
     (toString v \<noteq> [] \<and> \<not> hasLineBreak (toString v) \<and> \<not> isWhiteSpace (last (toString v)))"

section \<open>Properties of the credential freshness check\<close>

lemma shouldAuthenticate_unfold:
  "shouldAuthenticate client clock =
     (case client of
        None \<Rightarrow> True
      | Some c \<Rightarrow>
          (case expiry_date (credentials c) of
             None \<Rightarrow> True
           | Some expiry \<Rightarrow> expiry = 0 \<or> expiry < clock mod 1000))"
  by (auto simp: shouldAuthenticate_def falsyNumber_def getUTCMilliseconds_def Let_def
      split: option.splits)

text \<open>
  C1. The check is to return true exactly when nothing is cached, the expiry is unknown,
  or the current time is past the expiry. The code compares the expiry with the
  millisecond component of the current time instead of the current time: with a
  credential that expired at 1700000000000 and the clock five seconds later, the
  component is 0 and the check answers false, so the stale credential is reused.
\<close>

theorem shouldAuthenticate_expired_reused:
  "getUTCMilliseconds 1700000005000 = 0
   \<and> shouldAuthenticate (Some staleClient) 1700000005000 = False"
  by (simp add: shouldAuthenticate_unfold staleClient_def getUTCMilliseconds_def)

text \<open>
  C10. A cached credential whose expiry is present but zero is treated like one
  without expiry: the check answers true at every clock reading, whatever the
  comparison of the time with the expiry would give.
\<close>

theorem shouldAuthenticate_zero_expiry:
  "shouldAuthenticate (Some (c\<lparr>credentials := (credentials c)\<lparr>expiry_date := Some 0\<rparr>\<rparr>)) clock
   \<and> shouldAuthenticate (Some (c\<lparr>credentials := (credentials c)\<lparr>expiry_date := Some 0\<rparr>\<rparr>)) clock
       = shouldAuthenticate (Some (c\<lparr>credentials := (credentials c)\<lparr>expiry_date := None\<rparr>\<rparr>)) clock"
  by (simp add: shouldAuthenticate_unfold)

section \<open>Properties of the validator\<close>

lemma validateOptions_unfold:
  "validateOptions isValid options =
     (if failedFields isValid options = [] then \<lparr>valid = True, violations = None\<rparr>
      else \<lparr>valid = False,
            violations = Some (trim (concat (map violationLine (failedFields isValid options))))\<rparr>)"
  by (simp add: validateOptions_def failedFields_def violationLine_def falsyString_def Let_def)

lemma metrics_line_shown:
  "metrics options = [] \<Longrightarrow>
   containsText ''metrics: not set correctly.''
     (trim (concat (map violationLine (failedFields isValid options))))"
  by (simp add: failedFields_def violationLine_def trim_def isWhiteSpace_def)

text \<open>
  C3. The validator answers valid, with no violation text, exactly when all four checks
  pass. Otherwise it answers invalid, and the violation text is the concatenation of
  one line per failed check, naming the field and saying it is not set correctly,
  trimmed at both ends; each of the four fields is among the failed ones exactly when
  its own check fails, whatever the other checks give.
\<close>

theorem validateOptions_result:
  "validateOptions isValid options =
     (if failedFields isValid options = [] then \<lparr>valid = True, violations = None\<rparr>
      else \<lparr>valid = False,
            violations = Some (trim (concat (map violationLine (failedFields isValid options))))\<rparr>)
   \<and> (failedFields isValid options = []) =
       (isValid (startDate options) ''YYYY-MM-DD'' \<and> isValid (endDate options) ''YYYY-MM-DD''
        \<and> metrics options \<noteq> [] \<and> videoId options \<noteq> [])
   \<and> (''startDate'' \<in> set (failedFields isValid options))
       = (\<not> isValid (startDate options) ''YYYY-MM-DD'')
   \<and> (''endDate'' \<in> set (failedFields isValid options))
       = (\<not> isValid (endDate options) ''YYYY-MM-DD'')
   \<and> (''metrics'' \<in> set (failedFields isValid options)) = (metrics options = [])
   \<and> (''videoId'' \<in> set (failedFields isValid options)) = (videoId options = [])"
  by (simp add: validateOptions_unfold) (simp add: failedFields_def)

text \<open>
  C8, as the code has it. An empty metrics field fails the metrics check: the validator
  answers invalid and the violation text holds the line naming the metrics field. A
  metrics field of white space only is not empty and passes the check.
\<close>

theorem validateOptions_empty_metrics:
  "metrics options = [] \<Longrightarrow>
     valid (validateOptions isValid options) = False
     \<and> (\<exists>v. violations (validateOptions isValid options) = Some v
            \<and> containsText ''metrics: not set correctly.'' v)"
  by (simp add: validateOptions_unfold metrics_line_shown) (simp add: failedFields_def)

theorem validateOptions_empty_metrics_witness:
  "metrics emptyMetricsOptions = []
   \<and> validateOptions sampleIsValid emptyMetricsOptions
       = \<lparr>valid = False, violations = Some ''metrics: not set correctly.''\<rparr>"
proof -
  have m: "metrics emptyMetricsOptions = []" by (simp add: emptyMetricsOptions_def)
  have v: "validateOptions sampleIsValid emptyMetricsOptions
       = \<lparr>valid = False, violations = Some ''metrics: not set correctly.''\<rparr>"
    unfolding emptyMetricsOptions_def by code_simp
  from validateOptions_empty_metrics [OF m, of sampleIsValid] m v show ?thesis by simp
qed

text \<open>With two spaces as metrics and the other fields in order, the options are valid.\<close>

theorem validateOptions_blank_metrics_accepted:
  "metrics blankMetricsOptions = ''  ''
   \<and> validateOptions sampleIsValid blankMetricsOptions = \<lparr>valid = True, violations = None\<rparr>"
  by (simp add: validateOptions_unfold failedFields_def sampleIsValid_def blankMetricsOptions_def)

section \<open>Properties of the formatter's loops\<close>

lemma cellLine_fun:
  "cellLine toString = (\<lambda>header v. name header @ '':: '' @ toString v @ NL)"
  by (simp add: fun_eq_iff cellLine_def)

lemma cellLoop_overrun:
  "length headers < length row \<Longrightarrow> j \<le> length headers \<Longrightarrow>
   cellLoop toString headers row j acc = Inl TypeError"
proof (induction toString headers row j acc rule: cellLoop.induct)
  case (1 toString headers row j frontMattered)
  show ?case
  proof (cases "j < length headers")
    case True
    with 1 show ?thesis
      by (subst cellLoop.simps) (simp add: Let_def)
  next
    case False
    with 1 show ?thesis
      by (subst cellLoop.simps) simp
  qed
qed

lemma cellLoop_error: "cellLoop toString headers row j acc = Inl e \<Longrightarrow> e = TypeError"
proof (induction toString headers row j acc rule: cellLoop.induct)
  case (1 toString headers row j frontMattered)
  from "1.prems" show ?case
    by (subst (asm) cellLoop.simps) (auto simp: Let_def split: if_splits dest: "1.IH")
qed

lemma rowLoop_overrun:
  "i \<le> k \<Longrightarrow> k < length (rows data) \<Longrightarrow>
   length (columnHeaders data) < length (rows data ! k) \<Longrightarrow>
   rowLoop toString data i acc = Inl TypeError"
proof (induction toString data i acc rule: rowLoop.induct)
  case (1 toString data i frontMattered)
  have lt: "i < length (rows data)" using "1.prems" by simp
  show ?case
  proof (cases "cellLoop toString (columnHeaders data) (rows data ! i) 0 frontMattered")
    case (Inl e)
    then have "e = TypeError" by (rule cellLoop_error)
    with Inl lt show ?thesis
      by (subst rowLoop.simps) simp
  next
    case (Inr acc')
    have "i \<noteq> k"
    proof
      assume "i = k"
      with "1.prems"
      have "cellLoop toString (columnHeaders data) (rows data ! i) 0 frontMattered = Inl TypeError"
        by (simp add: cellLoop_overrun)
      with Inr show False by simp
    qed
    with "1.prems" have "Suc i \<le> k" by simp
    with "1.IH" [OF lt refl Inr] "1.prems" have "rowLoop toString data (Suc i) acc' = Inl TypeError"
      by simp
    with Inr lt show ?thesis
      by (subst rowLoop.simps) simp
  qed
qed

lemma cellLoop_lines:
  "length row \<le> length headers \<Longrightarrow> j \<le> length row \<Longrightarrow>
   cellLoop toString headers row j acc = Inr (acc @ concat (map2 (cellLine toString) (drop j headers) (drop j row)))"
proof (induction toString headers row j acc rule: cellLoop.induct)
  case (1 toString headers row j frontMattered)
  show ?case
  proof (cases "j < length row")
    case True
    with "1.prems" have jh: "j < length headers" by simp
    have dh: "drop j headers = headers ! j # drop (Suc j) headers"
      using jh by (simp add: Cons_nth_drop_Suc)
    have dr: "drop j row = row ! j # drop (Suc j) row"
      using True by (simp add: Cons_nth_drop_Suc)
    from "1.IH" [OF True jh refl refl] "1.prems" True
    have "cellLoop toString headers row (Suc j)
            (frontMattered @ name (headers ! j) @ '':: '' @ toString (row ! j) @ NL)
          = Inr ((frontMattered @ name (headers ! j) @ '':: '' @ toString (row ! j) @ NL)
                 @ concat (map2 (cellLine toString) (drop (Suc j) headers) (drop (Suc j) row)))"
      by (simp add: cellLine_fun)
    with True jh show ?thesis
      by (subst cellLoop.simps) (simp add: Let_def dh dr cellLine_fun)
  next
    case False
    with "1.prems" show ?thesis
      by (subst cellLoop.simps) simp
  qed
qed

lemma rowLoop_lines:
  "\<forall>row \<in> set (rows data). length row \<le> length (columnHeaders data) \<Longrightarrow>
   rowLoop toString data i acc
     = Inr (acc @ concat (map (rowBlock toString (columnHeaders data)) (drop i (rows data))))"
proof (induction toString data i acc rule: rowLoop.induct)
  case (1 toString data i frontMattered)
  show ?case
  proof (cases "i < length (rows data)")
    case True
    then have len: "length (rows data ! i) \<le> length (columnHeaders data)"
      using "1.prems" by simp
    have c: "cellLoop toString (columnHeaders data) (rows data ! i) 0 frontMattered
             = Inr (frontMattered @ rowBlock toString (columnHeaders data) (rows data ! i))"
      using cellLoop_lines [OF len, of 0 toString frontMattered] by (simp add: rowBlock_def)
    have d: "drop i (rows data) = rows data ! i # drop (Suc i) (rows data)"
      using True by (simp add: Cons_nth_drop_Suc)
    from "1.IH" [OF True refl c] "1.prems"
    have "rowLoop toString data (Suc i) (frontMattered @ rowBlock toString (columnHeaders data) (rows data ! i))
          = Inr ((frontMattered @ rowBlock toString (columnHeaders data) (rows data ! i))
                 @ concat (map (rowBlock toString (columnHeaders data)) (drop (Suc i) (rows data))))"
      by simp
    with True c show ?thesis
      by (subst rowLoop.simps) (simp add: d)
  next
    case False
    then show ?thesis
      by (subst rowLoop.simps) simp
  qed
qed

lemma formatReport_block:
  "\<forall>row \<in> set (rows data). length row \<le> length (columnHeaders data) \<Longrightarrow>
   formatReport toString data = Inr (trim (reportBlock toString data))"
  by (simp add: formatReport_def rowLoop_lines reportBlock_def)

lemma sampleReport_text:
  "trim (reportBlock int32ToString sampleReport)
   = ''views:: 10'' @ NL @ ''likes:: 2'' @ NL @ ''views:: 20'' @ NL @ ''likes:: 4''"
  unfolding sampleReport_def by code_simp

text \<open>
  C4, as the code has it. When every row is as long as the list of column headers, the
  formatter returns the lines \<open>name:: value\<close>, one per cell, rows in report order and
  cells in column order, each ended by a line break, with white space removed from both
  ends of the whole block; this holds whatever the conversion of numbers to strings is.
  The sample report with columns views and likes gives the four lines expected, with
  the sample conversion and with every conversion that renders 10, 2, 20 and 4 as
  these numerals, and a report without rows gives the empty text.
\<close>

theorem formatReport_emits_lines:
  "((\<forall>row \<in> set (rows data). length row = length (columnHeaders data))
      \<longrightarrow> formatReport toString data = Inr (trim (reportBlock toString data)))
   \<and> formatReport int32ToString sampleReport
       = Inr (''views:: 10'' @ NL @ ''likes:: 2'' @ NL @ ''views:: 20'' @ NL @ ''likes:: 4'')
   \<and> (render 10 = ''10'' \<and> render 2 = ''2'' \<and> render 20 = ''20'' \<and> render 4 = ''4''
      \<longrightarrow> formatReport render sampleReport
          = Inr (''views:: 10'' @ NL @ ''likes:: 2'' @ NL @ ''views:: 20'' @ NL @ ''likes:: 4''))
   \<and> formatReport toString (data\<lparr>rows := []\<rparr>) = Inr []"
proof -
  have sample: "formatReport r sampleReport = Inr (trim (reportBlock r sampleReport))" for r
    by (rule formatReport_block) (simp add: sampleReport_def)
  have "trim (reportBlock render sampleReport)
          = ''views:: 10'' @ NL @ ''likes:: 2'' @ NL @ ''views:: 20'' @ NL @ ''likes:: 4''"
    if "render 10 = ''10'' \<and> render 2 = ''2'' \<and> render 20 = ''20'' \<and> render 4 = ''4''"
    using that
    by (simp add: reportBlock_def rowBlock_def cellLine_def sampleReport_def trim_def
        isWhiteSpace_def)
  then have "formatReport render sampleReport
          = Inr (''views:: 10'' @ NL @ ''likes:: 2'' @ NL @ ''views:: 20'' @ NL @ ''likes:: 4'')"
    if "render 10 = ''10'' \<and> render 2 = ''2'' \<and> render 20 = ''20'' \<and> render 4 = ''4''"
    using that by (simp only: sample)
  moreover have "formatReport toString (data\<lparr>rows := []\<rparr>) = Inr []"
    using formatReport_block [of "data\<lparr>rows := []\<rparr>" toString]
    by (simp add: reportBlock_def trim_def)
  ultimately show ?thesis
    by (simp add: formatReport_block sample sampleReport_text)
qed

theorem formatReport_emits_lines_witness:
  "rows plainReport = [[10]]
   \<and> length (columnHeaders plainReport) = 1
   \<and> formatReport int32ToString plainReport = Inr (trim (reportBlock int32ToString plainReport))
   \<and> trim (reportBlock int32ToString plainReport) = ''views:: 10''
   \<and> int32ToString 10 = ''10'' \<and> int32ToString 2 = ''2''
   \<and> int32ToString 20 = ''20'' \<and> int32ToString 4 = ''4''
   \<and> formatReport int32ToString sampleReport
       = Inr (''views:: 10'' @ NL @ ''likes:: 2'' @ NL @ ''views:: 20'' @ NL @ ''likes:: 4'')"
proof -
  have "\<forall>row \<in> set (rows plainReport). length row = length (columnHeaders plainReport)"
    by (simp add: plainReport_def)
  with formatReport_emits_lines [of plainReport int32ToString]
  have 1: "formatReport int32ToString plainReport
           = Inr (trim (reportBlock int32ToString plainReport))"
    by blast
  have 2: "trim (reportBlock int32ToString plainReport) = ''views:: 10''"
    unfolding plainReport_def by code_simp
  have 3: "int32ToString 10 = ''10'' \<and> int32ToString 2 = ''2''
           \<and> int32ToString 20 = ''20'' \<and> int32ToString 4 = ''4''"
    by code_simp
  with formatReport_emits_lines [of plainReport int32ToString int32ToString]
  have 4: "formatReport int32ToString sampleReport
       = Inr (''views:: 10'' @ NL @ ''likes:: 2'' @ NL @ ''views:: 20'' @ NL @ ''likes:: 4'')"
    by blast
  from 1 2 3 4 show ?thesis by (simp add: plainReport_def)
qed

text \<open>
  A column name that begins with a space: removing white space from the end only would
  keep the space, the formatter removes it.
\<close>

theorem formatReport_trims_leading_counterexample:
  "formatReport int32ToString paddedReport = Inr ''views:: 10''
   \<and> trimEnd (reportBlock int32ToString paddedReport) = '' views:: 10''"
  unfolding paddedReport_def by code_simp

text \<open>
  C6, as the code has it. When some row is longer than the list of column headers, the
  formatter does not produce a text: reading the name of the missing header throws, and
  the result is the type error.
\<close>

theorem formatReport_long_row_fails:
  "\<exists>row \<in> set (rows data). length (columnHeaders data) < length row \<Longrightarrow>
   formatReport toString data = Inl TypeError"
proof -
  assume "\<exists>row \<in> set (rows data). length (columnHeaders data) < length row"
  then obtain k where "k < length (rows data)"
    "length (columnHeaders data) < length (rows data ! k)"
    by (auto simp: in_set_conv_nth)
  then have "rowLoop toString data 0 [] = Inl TypeError"
    by (intro rowLoop_overrun [of 0 k]) simp_all
  then show ?thesis by (simp add: formatReport_def)
qed

theorem formatReport_long_row_fails_witness:
  "rows staggeredReport = [[10], [20, 4]] \<and> length (columnHeaders staggeredReport) = 1
   \<and> formatReport int32ToString staggeredReport = Inl TypeError"
proof -
  have "\<exists>row \<in> set (rows staggeredReport). length (columnHeaders staggeredReport) < length row"
    by (simp add: staggeredReport_def)
  then have "formatReport int32ToString staggeredReport = Inl TypeError"
    by (rule formatReport_long_row_fails)
  then show ?thesis by (simp add: staggeredReport_def)
qed

text \<open>One header and a row of two cells: no text is produced.\<close>

theorem formatReport_long_row_counterexample:
  "rows longRowReport = [[10, 2]] \<and> length (columnHeaders longRowReport) = 1
   \<and> formatReport int32ToString longRowReport = Inl TypeError"
  unfolding longRowReport_def by code_simp

section \<open>Reading the formatter's output back\<close>

subsection \<open>The sample cells\<close>

text \<open>
  Every sample cell renders to a text that is not empty, holds no line break and does
  not end in white space, and the sample reader reads it back.
\<close>

lemma digitChar_value: "d < 10 \<Longrightarrow> of_char (digitChar d) = 48 + d"
  by (simp add: digitChar_def)

lemma digitChar_isDigit: "d < 10 \<Longrightarrow> isDigit (digitChar d)"
  by (simp add: isDigit_def digitChar_value)

lemma digitChar_digitValue: "d < 10 \<Longrightarrow> digitValue (digitChar d) = d"
  by (simp add: digitValue_def digitChar_value)

lemma natToString_digits: "natToString n \<noteq> [] \<and> list_all isDigit (natToString n)"
proof (induction n rule: natToString.induct)
  case (1 n)
  show ?case
  proof (cases "n < 10")
    case True
    then show ?thesis by (subst (1 2) natToString.simps) (simp add: digitChar_isDigit)
  next
    case False
    with 1 show ?thesis by (subst (1 2) natToString.simps) (simp add: digitChar_isDigit)
  qed
qed

lemma natToString_value:
  "foldl (\<lambda>a c. 10 * a + digitValue c) 0 (natToString n) = n"
proof (induction n rule: natToString.induct)
  case (1 n)
  show ?case
  proof (cases "n < 10")
    case True
    then show ?thesis by (subst natToString.simps) (simp add: digitChar_digitValue)
  next
    case False
    with 1 show ?thesis by (subst natToString.simps) (simp add: digitChar_digitValue)
  qed
qed

lemma readDecimal_natToString: "readDecimal (natToString n) = Some n"
  by (simp add: readDecimal_def natToString_digits natToString_value)

lemma isDigit_not_minus: "isDigit c \<Longrightarrow> c \<noteq> CHR ''-''"
  by (auto simp: isDigit_def)

lemma isDigit_not_white: "isDigit c \<Longrightarrow> \<not> isWhiteSpace c"
  by (auto simp: isDigit_def isWhiteSpace_def)

lemma isDigit_not_break: "isDigit c \<Longrightarrow> c \<noteq> CHR 0x0A"
  by (auto simp: isDigit_def)

lemma readInteger_int32ToString: "readInteger (int32ToString w) = Some (sint w)"
proof (cases "sint w < 0")
  case True
  then show ?thesis
    by (simp add: readInteger_def int32ToString_def readDecimal_natToString)
next
  case False
  obtain c cs where s: "natToString (nat (sint w)) = c # cs"
    using natToString_digits [of "nat (sint w)"] by (cases "natToString (nat (sint w))") auto
  with natToString_digits [of "nat (sint w)"] have "c \<noteq> CHR ''-''"
    by (auto dest: isDigit_not_minus)
  with False s readDecimal_natToString [of "nat (sint w)"] show ?thesis
    by (simp add: readInteger_def int32ToString_def)
qed

lemma readInt32_int32ToString: "readInt32 (int32ToString w) = Some w"
proof -
  have "- (2 ^ 31) \<le> sint w" "sint w < 2 ^ 31"
    using sint_ge [of w] sint_lt [of w] by simp_all
  then show ?thesis
    by (simp add: readInt32_def readInteger_int32ToString)
qed

lemma int32ToString_clean: "rendersCleanly int32ToString w"
proof -
  have d: "natToString n \<noteq> [] \<and> isDigit (last (natToString n))
           \<and> CHR 0x0A \<notin> set (natToString n)" for n
    using natToString_digits [of n] by (auto simp: list_all_iff dest: isDigit_not_break)
  then show ?thesis
    by (auto simp: rendersCleanly_def int32ToString_def hasLineBreak_def dest: isDigit_not_white)
qed

subsection \<open>The separator\<close>

lemma hasSeparator_Cons:
  "hasSeparator (c # cs) = (take 3 (c # cs) = '':: '' \<or> hasSeparator cs)"
  by (simp add: hasSeparator_def numeral_2_eq_2)

lemma specSplitSeparator_name:
  "\<not> hasSeparator n \<Longrightarrow> specSplitSeparator (n @ '':: '' @ v) = Some (n, v)"
proof (induction n)
  case Nil
  then show ?case by simp
next
  case (Cons c cs)
  from Cons.prems hasSeparator_Cons [of c cs]
  have here: "take 3 (c # cs) \<noteq> '':: ''" and rest: "\<not> hasSeparator cs"
    by blast+
  have "take 3 ((c # cs) @ '':: '' @ v) \<noteq> '':: ''"
  proof (cases cs)
    case Nil
    then show ?thesis by simp
  next
    case (Cons d ds)
    with here show ?thesis by (cases ds) auto
  qed
  with Cons.IH [OF rest] show ?case by simp
qed

lemma specParseLine_lineBody:
  "\<not> hasSeparator (name h) \<Longrightarrow> readNumber (toString v) = Some v \<Longrightarrow>
   specParseLine readNumber (lineBody toString h v) = Some (name h, v)"
  using specSplitSeparator_name [of "name h" "toString v"]
  by (simp add: specParseLine_def lineBody_def)

subsection \<open>Lines\<close>

lemma specSplitLines_nonempty: "specSplitLines s \<noteq> []"
  by (induction s) (auto simp: Let_def)

lemma specSplitLines_single:
  "CHR 0x0A \<notin> set l \<Longrightarrow>
   specSplitLines (l @ r) = (l @ hd (specSplitLines r)) # tl (specSplitLines r)"
  by (induction l) (auto simp: Let_def specSplitLines_nonempty)

lemma specSplitLines_line:
  "CHR 0x0A \<notin> set l \<Longrightarrow> specSplitLines (l @ NL @ r) = l # specSplitLines r"
  by (simp add: specSplitLines_single)

lemma specSplitLines_terminated:
  "\<forall>l \<in> set ls. CHR 0x0A \<notin> set l \<Longrightarrow>
   specSplitLines (concat (map (\<lambda>l. l @ NL) ls) @ r) = ls @ specSplitLines r"
proof (induction ls)
  case Nil
  then show ?case by simp
next
  case (Cons l ls)
  then have "specSplitLines (l @ NL @ concat (map (\<lambda>l. l @ NL) ls) @ r)
             = l # specSplitLines (concat (map (\<lambda>l. l @ NL) ls) @ r)"
    by (intro specSplitLines_line) simp
  with Cons show ?case by simp
qed

lemma specSplitLines_joined:
  assumes "\<forall>l \<in> set ls. CHR 0x0A \<notin> set l" and "ls \<noteq> []"
  shows "specSplitLines (butlast (concat (map (\<lambda>l. l @ NL) ls))) = ls"
proof -
  obtain ks k where ls: "ls = ks @ [k]"
    using assms(2) by (cases ls rule: rev_cases) auto
  have b: "butlast (concat (map (\<lambda>l. l @ NL) ls)) = concat (map (\<lambda>l. l @ NL) ks) @ k"
    by (simp add: ls butlast_append)
  have k: "specSplitLines k = [k]"
    using specSplitLines_single [of k "[]"] assms(1) by (simp add: ls)
  have "specSplitLines (concat (map (\<lambda>l. l @ NL) ks) @ k) = ks @ specSplitLines k"
    using assms(1) by (intro specSplitLines_terminated) (simp add: ls)
  then show ?thesis
    unfolding b by (simp add: k ls)
qed

lemma those_map_Some: "those (map Some xs) = Some xs"
  by (induction xs) simp_all

subsection \<open>Trimming a block of lines\<close>

lemma trim_block:
  assumes "\<not> leadingWhiteSpace s" and "\<not> isWhiteSpace d"
  shows "trim (s @ [d] @ NL) = s @ [d]"
proof -
  have "dropWhile isWhiteSpace (s @ [d] @ NL) = s @ [d] @ NL"
    using assms by (cases s) (simp_all add: leadingWhiteSpace_def)
  then show ?thesis
    using assms(2) by (simp add: trim_def isWhiteSpace_def)
qed

lemma leadingWhiteSpace_append:
  "a \<noteq> [] \<Longrightarrow> leadingWhiteSpace (a @ b) = leadingWhiteSpace a"
  by (cases a) (simp_all add: leadingWhiteSpace_def)

lemma trim_lines:
  assumes "ls \<noteq> []"
    and "\<forall>l \<in> set ls. l \<noteq> [] \<and> \<not> isWhiteSpace (last l)"
    and "\<not> leadingWhiteSpace (hd ls)"
  shows "trim (concat (map (\<lambda>l. l @ NL) ls)) = butlast (concat (map (\<lambda>l. l @ NL) ls))"
proof -
  obtain ks k where ls: "ls = ks @ [k]"
    using assms(1) by (cases ls rule: rev_cases) auto
  with assms(2) have k: "k \<noteq> []" "\<not> isWhiteSpace (last k)" by simp_all
  define s where "s = concat (map (\<lambda>l. l @ NL) ks) @ butlast k"
  have b: "concat (map (\<lambda>l. l @ NL) ls) = s @ [last k] @ NL"
    using k(1) by (simp add: ls s_def)
  have "\<not> leadingWhiteSpace s"
  proof (cases ks)
    case Nil
    show ?thesis
    proof (cases "butlast k")
      case Nil
      with \<open>ks = []\<close> show ?thesis by (simp add: s_def leadingWhiteSpace_def)
    next
      case (Cons c cs)
      then have "k = (c # cs) @ [last k]" using k(1) by (metis append_butlast_last_id)
      then have "leadingWhiteSpace k = leadingWhiteSpace (c # cs)"
        by (metis leadingWhiteSpace_append list.distinct(1))
      with assms(3) Cons \<open>ks = []\<close> show ?thesis by (simp add: s_def ls)
    qed
  next
    case (Cons k0 ks')
    with assms(2) have "k0 \<noteq> []" by (simp add: ls)
    then have "leadingWhiteSpace s = leadingWhiteSpace k0"
      by (simp add: s_def Cons leadingWhiteSpace_append)
    with assms(3) Cons show ?thesis by (simp add: ls)
  qed
  then have "trim (s @ [last k] @ NL) = s @ [last k]"
    using k(2) by (rule trim_block)
  then show ?thesis by (simp add: b butlast_append)
qed

subsection \<open>The report as lines and cells\<close>

lemma reportLines_cells: "reportLines toString data = map (\<lambda>(h, v). lineBody toString h v) (reportCells data)"
  by (simp add: reportLines_def reportCells_def map_concat o_def)

lemma cellPairs_cells: "cellPairs data = map (\<lambda>(h, v). (name h, v)) (reportCells data)"
  by (simp add: cellPairs_def reportCells_def map_concat o_def zip_map1)

lemma reportCells_header: "(h, v) \<in> set (reportCells data) \<Longrightarrow> h \<in> set (columnHeaders data)"
  by (auto simp: reportCells_def dest: set_zip_leftD)

lemma reportCells_first:
  "concat (map (zip hs) rs) \<noteq> [] \<Longrightarrow> fst (hd (concat (map (zip hs) rs))) = hd hs"
proof (induction rs)
  case Nil
  then show ?case by simp
next
  case (Cons r rs)
  show ?case
  proof (cases "zip hs r")
    case Nil
    with Cons show ?thesis by simp
  next
    case (Cons p ps)
    then show ?thesis by (cases hs; cases r) auto
  qed
qed

lemma reportBlock_lines: "reportBlock toString data = concat (map (\<lambda>l. l @ NL) (reportLines toString data))"
proof -
  have row: "rowBlock toString hs row = concat (map (\<lambda>l. l @ NL) (map2 (lineBody toString) hs row))" for hs row
    by (simp add: rowBlock_def cellLine_fun lineBody_def o_def split_def)
  have "concat (map (rowBlock toString hs) rs)
        = concat (map (\<lambda>l. l @ NL) (concat (map (\<lambda>row. map2 (lineBody toString) hs row) rs)))" for hs rs
    by (induction rs) (simp_all add: row)
  then show ?thesis
    by (simp add: reportBlock_def reportLines_def)
qed

lemma reportCells_value:
  "(h, v) \<in> set (reportCells data) \<Longrightarrow> \<exists>row \<in> set (rows data). v \<in> set row"
  by (auto simp: reportCells_def dest: set_zip_rightD)

lemma lineBody_leading:
  "leadingWhiteSpace (lineBody toString h v) = leadingWhiteSpace (name h)"
  by (cases "name h") (simp_all add: lineBody_def leadingWhiteSpace_def isWhiteSpace_def)

lemma lineBody_last:
  "rendersCleanly toString v \<Longrightarrow>
   lineBody toString h v \<noteq> [] \<and> \<not> isWhiteSpace (last (lineBody toString h v))"
  by (simp add: lineBody_def rendersCleanly_def)

lemma lineBody_no_break:
  "\<not> hasLineBreak (name h) \<Longrightarrow> rendersCleanly toString v \<Longrightarrow>
   CHR 0x0A \<notin> set (lineBody toString h v)"
  by (simp add: lineBody_def hasLineBreak_def rendersCleanly_def)

lemma roundTrip_lines:
  assumes eq: "\<forall>row \<in> set (rows data). length row = length (columnHeaders data)"
    and names: "\<forall>h \<in> set (columnHeaders data). \<not> hasLineBreak (name h) \<and> \<not> hasSeparator (name h)"
    and first: "\<not> leadingWhiteSpace (firstColumnName data)"
    and cells: "\<forall>row \<in> set (rows data). \<forall>v \<in> set row.
                  rendersCleanly toString v \<and> readNumber (toString v) = Some v"
  shows "specParseReport readNumber (trim (reportBlock toString data)) = Some (cellPairs data)"
proof (cases "reportCells data = []")
  case True
  then show ?thesis
    by (simp add: reportBlock_lines reportLines_cells cellPairs_cells trim_def specParseReport_def)
next
  case False
  let ?ls = "reportLines toString data"
  have cell: "rendersCleanly toString v \<and> readNumber (toString v) = Some v"
    if "(h, v) \<in> set (reportCells data)" for h v
    using reportCells_value [OF that] cells by blast
  have ne: "?ls \<noteq> []" using False by (simp add: reportLines_cells)
  have shape: "\<forall>l \<in> set ?ls. l \<noteq> [] \<and> \<not> isWhiteSpace (last l)"
    using cell by (auto simp: reportLines_cells dest: lineBody_last)
  have nobreak: "\<forall>l \<in> set ?ls. CHR 0x0A \<notin> set l"
  proof
    fix l assume "l \<in> set ?ls"
    then obtain h v where hv: "(h, v) \<in> set (reportCells data)" and l: "l = lineBody toString h v"
      by (auto simp: reportLines_cells)
    from hv names have "\<not> hasLineBreak (name h)"
      by (auto dest: reportCells_header)
    with cell [OF hv] show "CHR 0x0A \<notin> set l"
      unfolding l by (intro lineBody_no_break) simp_all
  qed
  have hd_cell: "fst (hd (reportCells data)) = hd (columnHeaders data)"
    using False unfolding reportCells_def by (rule reportCells_first)
  have hs: "columnHeaders data \<noteq> []"
    using False by (auto simp: reportCells_def)
  then have fcn: "firstColumnName data = name (hd (columnHeaders data))"
    by (cases "columnHeaders data") (simp_all add: firstColumnName_def)
  have "hd ?ls = lineBody toString (fst (hd (reportCells data))) (snd (hd (reportCells data)))"
    using False by (simp add: reportLines_cells hd_map split_def)
  with first hd_cell fcn have lead: "\<not> leadingWhiteSpace (hd ?ls)"
    by (simp add: lineBody_leading)
  have t: "trim (reportBlock toString data) = butlast (reportBlock toString data)"
    unfolding reportBlock_lines using ne shape lead by (rule trim_lines)
  have sp: "specSplitLines (butlast (reportBlock toString data)) = ?ls"
    unfolding reportBlock_lines using nobreak ne by (rule specSplitLines_joined)
  have nonempty: "butlast (reportBlock toString data) \<noteq> []"
  proof
    assume "butlast (reportBlock toString data) = []"
    with sp have "?ls = [[]]" by simp
    with shape show False by simp
  qed
  have "specParseLine readNumber (lineBody toString h v) = Some (name h, v)"
    if "(h, v) \<in> set (reportCells data)" for h v
    using that names cell [OF that] by (intro specParseLine_lineBody) (auto dest: reportCells_header)
  then have "map (specParseLine readNumber) ?ls = map Some (cellPairs data)"
    by (auto simp: reportLines_cells cellPairs_cells)
  with t sp nonempty show ?thesis
    by (simp add: specParseReport_def those_map_Some)
qed

text \<open>
  C9, as the code has it. Take a report whose rows are all as long as the list of
  column headers, whose column names hold no line break and no separator, and whose
  first column name does not begin with white space; let every cell render to a text
  that is not empty, holds no line break and does not end in white space, and that the
  parser's number reader reads back to the cell. Then the formatter returns a text, and
  reading each of its lines as \<open>name:: value\<close> gives back the pairs of column name and
  cell value in the report's row-major order.
\<close>

theorem formatReport_round_trip:
  assumes "\<forall>row \<in> set (rows data). length row = length (columnHeaders data)"
    and "\<forall>h \<in> set (columnHeaders data). \<not> hasLineBreak (name h) \<and> \<not> hasSeparator (name h)"
    and "\<not> leadingWhiteSpace (firstColumnName data)"
    and "\<forall>row \<in> set (rows data). \<forall>v \<in> set row.
           rendersCleanly toString v \<and> readNumber (toString v) = Some v"
  shows "\<exists>text. formatReport toString data = Inr text
           \<and> specParseReport readNumber text = Some (cellPairs data)"
proof -
  have "formatReport toString data = Inr (trim (reportBlock toString data))"
    using assms(1) by (intro formatReport_block) simp
  moreover have "specParseReport readNumber (trim (reportBlock toString data))
                 = Some (cellPairs data)"
    using assms by (rule roundTrip_lines)
  ultimately show ?thesis by blast
qed

theorem formatReport_round_trip_witness:
  "formatReport int32ToString sampleReport
     = Inr (''views:: 10'' @ NL @ ''likes:: 2'' @ NL @ ''views:: 20'' @ NL @ ''likes:: 4'')
   \<and> specParseReport readInt32
       (''views:: 10'' @ NL @ ''likes:: 2'' @ NL @ ''views:: 20'' @ NL @ ''likes:: 4'')
     = Some [(''views'', 10), (''likes'', 2), (''views'', 20), (''likes'', 4)]
   \<and> cellPairs sampleReport = [(''views'', 10), (''likes'', 2), (''views'', 20), (''likes'', 4)]"
proof -
  have 1: "\<forall>row \<in> set (rows sampleReport). length row = length (columnHeaders sampleReport)"
    by (simp add: sampleReport_def)
  have 2: "\<forall>h \<in> set (columnHeaders sampleReport).
             \<not> hasLineBreak (name h) \<and> \<not> hasSeparator (name h)"
    by (simp add: sampleReport_def hasLineBreak_def hasSeparator_def)
  have 3: "\<not> leadingWhiteSpace (firstColumnName sampleReport)"
    by (simp add: sampleReport_def firstColumnName_def leadingWhiteSpace_def isWhiteSpace_def)
  have 4: "\<forall>row \<in> set (rows sampleReport). \<forall>v \<in> set row.
             rendersCleanly int32ToString v \<and> readInt32 (int32ToString v) = Some v"
    by (simp add: readInt32_int32ToString int32ToString_clean)
  have f: "formatReport int32ToString sampleReport
     = Inr (''views:: 10'' @ NL @ ''likes:: 2'' @ NL @ ''views:: 20'' @ NL @ ''likes:: 4'')"
    unfolding sampleReport_def by code_simp
  have c: "cellPairs sampleReport = [(''views'', 10), (''likes'', 2), (''views'', 20), (''likes'', 4)]"
    by (simp add: cellPairs_def sampleReport_def)
  from formatReport_round_trip [OF 1 2 3 4] f c show ?thesis by auto
qed

text \<open>
  A column name that begins with a space holds no line break and no separator, and the
  cell renders and reads back as required, yet the text read back names the column
  without the space; the report with the plain name gives the same text, so no reading
  of the text can tell the two apart.
\<close>

theorem formatReport_round_trip_counterexample:
  "rows paddedReport = [[10]] \<and> map name (columnHeaders paddedReport) = ['' views'']
   \<and> \<not> hasLineBreak '' views'' \<and> \<not> hasSeparator '' views''
   \<and> rendersCleanly int32ToString 10 \<and> readInt32 (int32ToString 10) = Some 10
   \<and> formatReport int32ToString paddedReport = Inr ''views:: 10''
   \<and> specParseReport readInt32 ''views:: 10'' = Some [(''views'', 10)]
   \<and> cellPairs paddedReport = [('' views'', 10)]
   \<and> formatReport int32ToString paddedReport = formatReport int32ToString plainReport
   \<and> cellPairs paddedReport \<noteq> cellPairs plainReport"
  unfolding paddedReport_def plainReport_def by code_simp

section \<open>Properties of the report run\<close>

lemma errorModal_effects [simp]:
  "modalsOpened (ErrorModal m # es) = (''ERROR:'' @ NL @ '' '' @ m) # modalsOpened es"
  "textsInserted (ErrorModal m # es) = textsInserted es"
  "queriesIssued (ErrorModal m # es) = queriesIssued es"
  "authorizationsRequested (ErrorModal m # es) = authorizationsRequested es"
  by (simp_all add: ErrorModal_def)

lemma fetchReportDetails_cases:
  "fetchReportDetails env options =
     ReportsQuery (queryRequest options) #
       (case reportsQuery env (queryRequest options) of
          Inl error \<Rightarrow> [ErrorModal (''Retrieval failed: '' @ errorToString error)]
        | Inr metricsData \<Rightarrow>
            (case formatReport (numberToString env) metricsData of
               Inl error \<Rightarrow> [ErrorModal (''Retrieval failed: '' @ errorToString error)]
             | Inr text \<Rightarrow> [ReplaceRange text]))"
  by (simp add: fetchReportDetails_def Let_def)

lemma runVideoReport_keeps_options:
  "previousReportOptions (fst (runVideoReport env clock plugin options))
   = previousReportOptions plugin"
  by (simp add: runVideoReport_def Let_def split: sum.splits)

text \<open>
  C2. When authorization is needed and the authorization call fails, the failure is to
  be reported to the user, with no retry and no credential stored. In the code the
  promise chain of the authorization call has no rejection handler: with nothing cached
  and the call rejected, authorization is requested once and no credential is stored,
  but no modal is opened and the rejection stays unhandled.
\<close>

theorem runVideoReport_auth_rejection_unreported:
  "shouldAuthenticate (oauth2Client freshPlugin) 1700000005000
   \<and> runVideoReport rejectingAuth 1700000005000 freshPlugin sampleOptions
       = (freshPlugin, [Authenticate (authRequest freshPlugin),
                        UnhandledRejection (Rejected ''Error: invalid_grant'')])
   \<and> modalsOpened (snd (runVideoReport rejectingAuth 1700000005000 freshPlugin sampleOptions))
       = []"
  by (simp add: runVideoReport_def rejectingAuth_def freshPlugin_def shouldAuthenticate_def)

text \<open>
  C5. When the report query is issued and fails, the run opens exactly one modal, whose
  text holds the failure's detail, inserts nothing into the document, and has issued the
  query once and requested authorization at most once. Whenever a run inserts a text,
  the query has answered with a report and that text is the formatter's result for it.
\<close>

theorem query_failure_reported:
  "(reportsQuery env (queryRequest options) = Inl error
      \<and> queriesIssued (snd (runVideoReport env clock plugin options)) \<noteq> []
    \<longrightarrow> modalsOpened (snd (runVideoReport env clock plugin options))
          = [''ERROR:'' @ NL @ '' Retrieval failed: '' @ errorToString error]
        \<and> textsInserted (snd (runVideoReport env clock plugin options)) = []
        \<and> queriesIssued (snd (runVideoReport env clock plugin options)) = [queryRequest options]
        \<and> length (authorizationsRequested (snd (runVideoReport env clock plugin options))) \<le> 1)
   \<and> (text \<in> set (textsInserted (snd (runVideoReport env clock plugin options)))
    \<longrightarrow> (\<exists>data. reportsQuery env (queryRequest options) = Inr data
                \<and> formatReport (numberToString env) data = Inr text))"
  by (auto simp: runVideoReport_def fetchReportDetails_cases Let_def split: sum.splits if_splits)

theorem query_failure_reported_witness:
  "reportsQuery rejectingQuery (queryRequest sampleOptions)
     = Inl (Rejected ''Error: quota exceeded'')
   \<and> queriesIssued (snd (runVideoReport rejectingQuery 1700000005000 freshPlugin sampleOptions))
       \<noteq> []
   \<and> modalsOpened (snd (runVideoReport rejectingQuery 1700000005000 freshPlugin sampleOptions))
       = [''ERROR:'' @ NL @ '' Retrieval failed: Error: quota exceeded'']
   \<and> textsInserted (snd (runVideoReport rejectingQuery 1700000005000 freshPlugin sampleOptions))
       = []
   \<and> ''views:: 10'' @ NL @ ''likes:: 2'' @ NL @ ''views:: 20'' @ NL @ ''likes:: 4''
        \<in> set (textsInserted (snd (runVideoReport answering 1700000005000 freshPlugin sampleOptions)))
   \<and> (\<exists>data. reportsQuery answering (queryRequest sampleOptions) = Inr data
          \<and> formatReport (numberToString answering) data
              = Inr (''views:: 10'' @ NL @ ''likes:: 2'' @ NL @ ''views:: 20'' @ NL @ ''likes:: 4''))"
proof -
  have q: "reportsQuery rejectingQuery (queryRequest sampleOptions)
           = Inl (Rejected ''Error: quota exceeded'')"
    by (simp add: rejectingQuery_def)
  have r: "snd (runVideoReport rejectingQuery 1700000005000 freshPlugin sampleOptions)
      = [Authenticate (authRequest freshPlugin), GoogleOptions sampleClient,
         ReportsQuery (queryRequest sampleOptions),
         ErrorModal (''Retrieval failed: Error: quota exceeded'')]"
    by (simp add: runVideoReport_def rejectingQuery_def freshPlugin_def shouldAuthenticate_def
        fetchReportDetails_cases errorToString_def)
  have f: "formatReport int32ToString sampleReport
           = Inr (''views:: 10'' @ NL @ ''likes:: 2'' @ NL @ ''views:: 20'' @ NL @ ''likes:: 4'')"
    unfolding sampleReport_def by code_simp
  have a: "snd (runVideoReport answering 1700000005000 freshPlugin sampleOptions)
      = [Authenticate (authRequest freshPlugin), GoogleOptions sampleClient,
         ReportsQuery (queryRequest sampleOptions),
         ReplaceRange (''views:: 10'' @ NL @ ''likes:: 2'' @ NL @ ''views:: 20'' @ NL @ ''likes:: 4'')]"
    by (simp add: runVideoReport_def answering_def freshPlugin_def shouldAuthenticate_def
        fetchReportDetails_cases f)
  have n: "queriesIssued (snd (runVideoReport rejectingQuery 1700000005000 freshPlugin sampleOptions))
           \<noteq> []"
    by (simp add: r)
  have i: "''views:: 10'' @ NL @ ''likes:: 2'' @ NL @ ''views:: 20'' @ NL @ ''likes:: 4''
        \<in> set (textsInserted (snd (runVideoReport answering 1700000005000 freshPlugin sampleOptions)))"
    by (simp add: a)
  from query_failure_reported [of rejectingQuery sampleOptions "Rejected ''Error: quota exceeded''"
      1700000005000 freshPlugin "[]"] q n
  have 1: "modalsOpened (snd (runVideoReport rejectingQuery 1700000005000 freshPlugin sampleOptions))
          = [''ERROR:'' @ NL @ '' Retrieval failed: Error: quota exceeded'']
   \<and> textsInserted (snd (runVideoReport rejectingQuery 1700000005000 freshPlugin sampleOptions)) = []"
    by (simp add: errorToString_def)
  from query_failure_reported [of answering sampleOptions "Rejected []" 1700000005000 freshPlugin
      "''views:: 10'' @ NL @ ''likes:: 2'' @ NL @ ''views:: 20'' @ NL @ ''likes:: 4''"] i
  have 2: "\<exists>data. reportsQuery answering (queryRequest sampleOptions) = Inr data
          \<and> formatReport (numberToString answering) data
              = Inr (''views:: 10'' @ NL @ ''likes:: 2'' @ NL @ ''views:: 20'' @ NL @ ''likes:: 4'')"
    by blast
  show ?thesis using q n 1 i 2 by blast
qed

text \<open>
  C7. The form's callback stores the submitted options as the plugin's last-used options
  whether or not they are valid. When they are not valid, the only effect is the modal
  with the violation text, and nothing else of the plugin changes: the report run is not
  started. When they are valid, the callback is the report run on the plugin holding the
  submitted options.
\<close>

theorem onSubmit_caches_options:
  "previousReportOptions (fst (onSubmit env clock plugin result)) = result
   \<and> (\<not> valid (validateOptions (momentIsValid env) result) \<longrightarrow>
        (\<exists>v. violations (validateOptions (momentIsValid env) result) = Some v
           \<and> snd (onSubmit env clock plugin result)
               = [ModalOpen (''ERROR:'' @ NL @ '' Options set incorrectly:'' @ NL @ v)])
        \<and> fst (onSubmit env clock plugin result) = plugin\<lparr>previousReportOptions := result\<rparr>)
   \<and> (valid (validateOptions (momentIsValid env) result) \<longrightarrow>
        onSubmit env clock plugin result
          = runVideoReport env clock (plugin\<lparr>previousReportOptions := result\<rparr>) result)"
  by (auto simp: onSubmit_def Let_def runVideoReport_keeps_options ErrorModal_def
      validateOptions_unfold)

theorem onSubmit_caches_options_witness:
  "\<not> valid (validateOptions (momentIsValid answering) emptyMetricsOptions)
   \<and> onSubmit answering 1700000005000 freshPlugin emptyMetricsOptions
       = (freshPlugin\<lparr>previousReportOptions := emptyMetricsOptions\<rparr>,
          [ModalOpen (''ERROR:'' @ NL @ '' Options set incorrectly:'' @ NL
                      @ ''metrics: not set correctly.'')])
   \<and> valid (validateOptions (momentIsValid answering) sampleOptions)
   \<and> previousReportOptions (fst (onSubmit answering 1700000005000 freshPlugin sampleOptions))
       = sampleOptions
   \<and> onSubmit answering 1700000005000 freshPlugin sampleOptions
       = runVideoReport answering 1700000005000
           (freshPlugin\<lparr>previousReportOptions := sampleOptions\<rparr>) sampleOptions"
proof -
  have v: "validateOptions (momentIsValid answering) emptyMetricsOptions
       = \<lparr>valid = False, violations = Some ''metrics: not set correctly.''\<rparr>"
    unfolding emptyMetricsOptions_def answering_def by code_simp
  have w: "validateOptions (momentIsValid answering) sampleOptions
       = \<lparr>valid = True, violations = None\<rparr>"
    unfolding sampleOptions_def answering_def by code_simp
  from onSubmit_caches_options [of answering 1700000005000 freshPlugin emptyMetricsOptions] v
  have 1: "onSubmit answering 1700000005000 freshPlugin emptyMetricsOptions
       = (freshPlugin\<lparr>previousReportOptions := emptyMetricsOptions\<rparr>,
          [ModalOpen (''ERROR:'' @ NL @ '' Options set incorrectly:'' @ NL
                      @ ''metrics: not set correctly.'')])"
    by (simp add: prod_eq_iff)
  have nv: "\<not> valid (validateOptions (momentIsValid answering) emptyMetricsOptions)"
    by (simp add: v)
  have wv: "valid (validateOptions (momentIsValid answering) sampleOptions)"
    by (simp add: w)
  from onSubmit_caches_options [of answering 1700000005000 freshPlugin sampleOptions] wv
  have 2: "previousReportOptions (fst (onSubmit answering 1700000005000 freshPlugin sampleOptions))
       = sampleOptions
   \<and> onSubmit answering 1700000005000 freshPlugin sampleOptions
       = runVideoReport answering 1700000005000
           (freshPlugin\<lparr>previousReportOptions := sampleOptions\<rparr>) sampleOptions"
    by blast
  from 1 2 nv wv show ?thesis by blast
qed

end
